theory Spec2Isabelle
  imports Main "HOL-Library.Word" "HOL-Library.Sublist"
begin

section \<open>Go values used by package bind\<close>

text \<open>
  Strings are byte sequences, as Go's are. An \<open>error\<close> is a value with a message
  (\<open>Error()\<close>) that may or may not expose a wrapped cause (\<open>Unwrap()\<close>).
  \<open>ErrorString\<close> is what \<open>errors.New\<close> builds; \<open>WrapError\<close> stands for any error
  value that has an \<open>Unwrap\<close> method (what \<open>fmt.Errorf\<close> builds for a \<open>%w\<close> verb, or a
  library error such as \<open>*url.Error\<close>).
\<close>

datatype error = ErrorString string | WrapError string error

fun Error :: "error \<Rightarrow> string" where
  "Error (ErrorString s) = s"
| "Error (WrapError s e) = s"

fun Unwrap :: "error \<Rightarrow> error option" where
  "Unwrap (ErrorString s) = None"
| "Unwrap (WrapError s e) = Some e"

text \<open>
  \<open>fmt.Errorf\<close> with a format that has no \<open>%w\<close> verb: the operands are rendered into
  the message and the result is \<open>errors.New\<close> of that text. The argument is the list
  of rendered pieces of the format, in order.
\<close>

definition fmt_Errorf :: "string list \<Rightarrow> error" where
  "fmt_Errorf pieces = ErrorString (concat pieces)"

section \<open>Package path of the Go standard library: Clean and Join\<close>

text \<open>
  \<open>path.Join\<close> is what line 53 of bind.go calls. It is transcribed from the Go
  distribution (path/path.go). \<open>Clean\<close> reads the path at index \<open>r\<close> and writes a
  buffer of which the first \<open>w\<close> bytes are the output so far; here the unread rest of
  the path is the list \<open>rest\<close>, the written part of the buffer is \<open>out\<close> (so
  \<open>out.w\<close> is \<open>length out\<close>), and \<open>dotdot\<close> is the index where backtracking must stop.
\<close>

text \<open>\<open>r+k == n || path[r+k] == '/'\<close>, for the rest of the path from \<open>r+k\<close> on.\<close>

definition elem_ends :: "string \<Rightarrow> bool" where
  "elem_ends rest = (case rest of [] \<Rightarrow> True | c # _ \<Rightarrow> c = CHR ''/'')"

text \<open>
  The inner loop of the \<open>..\<close> case, after \<open>out.w--\<close>:
  \<open>for out.w > dotdot && out.index(out.w) != '/' { out.w-- }\<close>. The index read is
  below the old length of the buffer.
\<close>

primrec scan_back :: "string \<Rightarrow> nat \<Rightarrow> nat \<Rightarrow> nat" where
  "scan_back out dotdot 0 = 0"
| "scan_back out dotdot (Suc w) =
     (if Suc w > dotdot \<and> out ! Suc w \<noteq> CHR ''/'' then scan_back out dotdot w else Suc w)"

function clean_loop :: "bool \<Rightarrow> string \<Rightarrow> string \<Rightarrow> nat \<Rightarrow> string" where
  "clean_loop rooted [] out dotdot = out"
| "clean_loop rooted (c # cs) out dotdot =
     (if c = CHR ''/'' then
        \<comment> \<open>empty path element\<close>
        clean_loop rooted cs out dotdot
      else if c = CHR ''.'' \<and> elem_ends cs then
        \<comment> \<open>. element\<close>
        clean_loop rooted cs out dotdot
      else if c = CHR ''.'' \<and> hd cs = CHR ''.'' \<and> elem_ends (tl cs) then
        \<comment> \<open>.. element: remove to last /\<close>
        (if length out > dotdot then
           clean_loop rooted (tl cs) (take (scan_back out dotdot (length out - 1)) out) dotdot
         else if \<not> rooted then
           (let out' = (if length out > 0 then out @ ''/'' else out) @ ''..''
            in clean_loop rooted (tl cs) out' (length out'))
         else clean_loop rooted (tl cs) out dotdot)
      else
        \<comment> \<open>real path element: add slash if needed, copy element\<close>
        (let out' = (if rooted \<and> length out \<noteq> 1 \<or> \<not> rooted \<and> length out \<noteq> 0
                     then out @ ''/'' else out)
         in clean_loop rooted (dropWhile (\<lambda>x. x \<noteq> CHR ''/'') (c # cs))
              (out' @ takeWhile (\<lambda>x. x \<noteq> CHR ''/'') (c # cs)) dotdot))"
  by pat_completeness auto
termination
proof (relation "measure (\<lambda>(rooted, rest, out, dotdot). length rest)")
  fix rooted :: bool and c :: char and cs out :: string and dotdot :: nat and x :: string
  assume "c \<noteq> CHR ''/''"
  have "length (dropWhile (\<lambda>x. x \<noteq> CHR ''/'') cs) \<le> length cs"
    by (rule length_dropWhile_le)
  then show "((rooted, dropWhile (\<lambda>x. x \<noteq> CHR ''/'') (c # cs),
                x @ takeWhile (\<lambda>x. x \<noteq> CHR ''/'') (c # cs), dotdot),
              rooted, c # cs, out, dotdot)
             \<in> measure (\<lambda>(rooted, rest, out, dotdot). length rest)"
    using \<open>c \<noteq> CHR ''/''\<close> by simp
qed auto

definition Clean :: "string \<Rightarrow> string" where
  "Clean path =
     (if path = [] then ''.''
      else
        (let rooted = (hd path = CHR ''/'');
             out = (if rooted then clean_loop rooted (tl path) ''/'' 1
                    else clean_loop rooted path [] 0)
         in if length out = 0 then ''.'' else out))"

text \<open>
  \<open>Join\<close>: empty elements are ignored, the others are joined with slashes and the
  result is cleaned; if all elements are empty the result is the empty string.
\<close>

definition Join :: "string list \<Rightarrow> string" where
  "Join elem =
     (if sum_list (map length elem) = 0 then []
      else Clean (foldl (\<lambda>buf e. if length buf > 0 \<or> e \<noteq> []
                                    then (if length buf > 0 then buf @ ''/'' else buf) @ e
                                    else buf) [] elem))"

subsection \<open>Paths without an empty element\<close>

text \<open>No two slashes follow each other.\<close>

fun no_double_slash :: "string \<Rightarrow> bool" where
  "no_double_slash (a # b # cs) = (\<not> (a = CHR ''/'' \<and> b = CHR ''/'') \<and> no_double_slash (b # cs))"
| "no_double_slash _ = True"

text \<open>
  What the loop of \<open>Clean\<close> keeps true of its buffer: no two slashes follow each other,
  \<open>dotdot\<close> lies within it, and it ends in a slash only when it is the root \<open>/\<close>
  alone; below \<open>dotdot\<close> an unrooted buffer ends in a dot.
\<close>

definition clean_inv :: "bool \<Rightarrow> string \<Rightarrow> nat \<Rightarrow> bool" where
  "clean_inv rooted out dotdot =
     (no_double_slash out \<and> dotdot \<le> length out \<and>
      (if rooted
       then dotdot = 1 \<and> out \<noteq> [] \<and> (length out = 1 \<or> last out \<noteq> CHR ''/'')
       else (out = [] \<or> last out \<noteq> CHR ''/'') \<and> (dotdot = 0 \<or> out ! (dotdot - 1) \<noteq> CHR ''/'')))"

section \<open>Transport: XMLClient and Get\<close>

text \<open>
  \<open>url.URL\<close>, with the fields the client touches, and \<open>http.Response\<close>. The body
  of a response is a stream; its content is the field \<open>Body\<close> and whether it has been
  closed is part of the state a call returns.
\<close>

record URL =
  Scheme :: string
  Host :: string
  Path :: string

record Response =
  Status :: string
  StatusCode :: int
  Body :: string

definition StatusOK :: int where
  "StatusOK = 200"

text \<open>
  \<open>XMLClient\<close>: the base URL and the injected \<open>*http.Client\<close>, kept abstract as a
  value of type \<open>'h\<close>.
\<close>

record 'h XMLClient =
  url :: string
  http :: 'h

definition NewXMLClient :: "string \<Rightarrow> 'h \<Rightarrow> 'h XMLClient" where
  "NewXMLClient u c = \<lparr>url = u, http = c\<rparr>"

text \<open>
  What \<open>Get\<close> calls outside this package, as parameters: \<open>url.Parse\<close>,
  \<open>(*URL).String\<close>, \<open>(*http.Client).Get\<close>, \<open>xml.NewDecoder(body).Decode(v)\<close>
  (which returns its error and leaves the target as far as it was filled) and the
  quoting of the \<open>%q\<close> verb (\<open>strconv.Quote\<close>).
\<close>

record ('h, 'v) world =
  url_Parse :: "string \<Rightarrow> error + URL"
  URL_String :: "URL \<Rightarrow> string"
  Client_Get :: "'h \<Rightarrow> string \<Rightarrow> error + Response"
  Decoder_Decode :: "string \<Rightarrow> 'v \<Rightarrow> error option \<times> 'v"
  strconv_Quote :: "string \<Rightarrow> string"

text \<open>
  The state at the return of a call of \<open>Get\<close>: the error returned (\<open>None\<close> is
  \<open>nil\<close>), the value \<open>v\<close> points to, the receiver \<open>*c\<close>, the URL of the request
  if one was issued, and the response body (\<open>None\<close> if no response was obtained).
\<close>

datatype stream = Open | Closed

record ('h, 'v) get_state =
  returned :: "error option"
  target :: 'v
  receiver :: "'h XMLClient"
  requested :: "URL option"
  body :: "stream option"

text \<open>\<open>defer resp.Body.Close()\<close>: runs when \<open>Get\<close> returns, on every path after it.\<close>

definition Body_Close :: "('h, 'v) get_state \<Rightarrow> ('h, 'v) get_state" where
  "Body_Close s = s\<lparr>body := Some Closed\<rparr>"

definition Get :: "('h, 'v) world \<Rightarrow> 'h XMLClient \<Rightarrow> string \<Rightarrow> 'v \<Rightarrow> ('h, 'v) get_state" where
  "Get W c p v =
     (case url_Parse W (url c) of
        Inl err \<Rightarrow>
          \<lparr>returned = Some (fmt_Errorf [''invalid URL '', strconv_Quote W (url c), '': '', Error err]),
           target = v, receiver = c, requested = None, body = None\<rparr>
      | Inr u0 \<Rightarrow>
          (let u = u0\<lparr>Path := Join [Path u0, p]\<rparr> in
           (case Client_Get W (http c) (URL_String W u) of
              Inl err \<Rightarrow>
                \<lparr>returned = Some (fmt_Errorf [''error querying stats: '', Error err]),
                 target = v, receiver = c, requested = Some u, body = None\<rparr>
            | Inr resp \<Rightarrow>
                Body_Close
                  (if StatusCode resp \<noteq> StatusOK then
                     \<lparr>returned = Some (fmt_Errorf [''unexpected status '', Status resp]),
                      target = v, receiver = c, requested = Some u, body = Some Open\<rparr>
                   else
                     (case Decoder_Decode W (Body resp) v of
                        (Some err, v') \<Rightarrow>
                          \<lparr>returned = Some (fmt_Errorf [''failed to unmarshal XML response: '', Error err]),
                           target = v', receiver = c, requested = Some u, body = Some Open\<rparr>
                      | (None, v') \<Rightarrow>
                          \<lparr>returned = None,
                           target = v', receiver = c, requested = Some u, body = Some Open\<rparr>)))))"

text \<open>A sequence of calls on one client, each with its own path and target.\<close>

fun Get_calls :: "('h, 'v) world \<Rightarrow> 'h XMLClient \<Rightarrow> (string \<times> 'v) list \<Rightarrow> 'h XMLClient" where
  "Get_calls W c [] = c"
| "Get_calls W c ((p, v) # calls) = Get_calls W (receiver (Get W c p v)) calls"

subsection \<open>Conditions on a call of Get\<close>

text \<open>
  The response a call obtains, if its base URL parses and its request is answered; and
  the condition that the call fails before any decoding: the base URL does not parse, or
  the request fails, or the status is not 200.
\<close>

definition fails_before_decoding :: "('h, 'v) world \<Rightarrow> 'h XMLClient \<Rightarrow> string \<Rightarrow> bool" where
  "fails_before_decoding W c p =
     (case url_Parse W (url c) of
        Inl err \<Rightarrow> True
      | Inr u0 \<Rightarrow>
          (case Client_Get W (http c) (URL_String W (u0\<lparr>Path := Join [Path u0, p]\<rparr>)) of
             Inl err \<Rightarrow> True
           | Inr resp \<Rightarrow> StatusCode resp \<noteq> StatusOK))"

definition response_obtained :: "('h, 'v) world \<Rightarrow> 'h XMLClient \<Rightarrow> string \<Rightarrow> Response option" where
  "response_obtained W c p =
     (case url_Parse W (url c) of
        Inl err \<Rightarrow> None
      | Inr u0 \<Rightarrow>
          (case Client_Get W (http c) (URL_String W (u0\<lparr>Path := Join [Path u0, p]\<rparr>)) of
             Inl err \<Rightarrow> None
           | Inr resp \<Rightarrow> Some resp))"

subsection \<open>Overlapping calls of Get on one client\<close>

text \<open>
  The statements of \<open>Get\<close> as steps, so that calls on the same \<open>*XMLClient\<close> can
  overlap. A call in progress is at one of four places: before line 49 (it will read
  \<open>c.url\<close> and parse it, then join the path, line 53), at line 51 after a failed parse
  (it will read \<open>c.url\<close> again for the message), before line 55 (it will read
  \<open>c.http\<close> and issue the request), and after line 55 with a response (lines 59 to 69,
  which touch no field of the receiver). Every place keeps the arguments \<open>p\<close> and
  \<open>v\<close> of the call. A step takes the shared client as it is at that moment and gives
  it back.
\<close>

datatype ('h, 'v) call =
    AtParse string 'v
  | AtParseError string 'v error
  | AtRequest string 'v URL
  | AtResponse string 'v URL Response
  | Returned string 'v "('h, 'v) get_state"

fun call_step ::
  "('h, 'v) world \<Rightarrow> 'h XMLClient \<Rightarrow> ('h, 'v) call \<Rightarrow> 'h XMLClient \<times> ('h, 'v) call" where
  "call_step W c (AtParse p v) =
     (c, case url_Parse W (url c) of
           Inl err \<Rightarrow> AtParseError p v err
         | Inr u0 \<Rightarrow> AtRequest p v (u0\<lparr>Path := Join [Path u0, p]\<rparr>))"
| "call_step W c (AtParseError p v err) =
     (c, Returned p v
           \<lparr>returned = Some (fmt_Errorf [''invalid URL '', strconv_Quote W (url c), '': '', Error err]),
            target = v, receiver = c, requested = None, body = None\<rparr>)"
| "call_step W c (AtRequest p v u) =
     (c, case Client_Get W (http c) (URL_String W u) of
           Inl err \<Rightarrow>
             Returned p v
               \<lparr>returned = Some (fmt_Errorf [''error querying stats: '', Error err]),
                target = v, receiver = c, requested = Some u, body = None\<rparr>
         | Inr resp \<Rightarrow> AtResponse p v u resp)"
| "call_step W c (AtResponse p v u resp) =
     (c, Returned p v
           (Body_Close
              (if StatusCode resp \<noteq> StatusOK then
                 \<lparr>returned = Some (fmt_Errorf [''unexpected status '', Status resp]),
                  target = v, receiver = c, requested = Some u, body = Some Open\<rparr>
               else
                 (case Decoder_Decode W (Body resp) v of
                    (Some err, v') \<Rightarrow>
                      \<lparr>returned = Some (fmt_Errorf [''failed to unmarshal XML response: '', Error err]),
                       target = v', receiver = c, requested = Some u, body = Some Open\<rparr>
                  | (None, v') \<Rightarrow>
                      \<lparr>returned = None,
                       target = v', receiver = c, requested = Some u, body = Some Open\<rparr>))))"
| "call_step W c (Returned p v r) = (c, Returned p v r)"

text \<open>
  A client with the calls in progress on it. In one step of the whole, a new call starts,
  or one of the calls that has not returned makes its next step; the order is free.
\<close>

inductive pool_step ::
  "('h, 'v) world \<Rightarrow> 'h XMLClient \<times> ('h, 'v) call list \<Rightarrow> 'h XMLClient \<times> ('h, 'v) call list \<Rightarrow> bool"
  for W :: "('h, 'v) world" where
  start: "pool_step W (c, ts) (c, ts @ [AtParse p v])"
| run: "i < length ts \<Longrightarrow> call_step W c (ts ! i) = (c', t') \<Longrightarrow>
        pool_step W (c, ts) (c', ts[i := t'])"

text \<open>The arguments of a call, and the call run to its return on an undisturbed client.\<close>

fun call_path :: "('h, 'v) call \<Rightarrow> string" where
  "call_path (AtParse p v) = p"
| "call_path (AtParseError p v err) = p"
| "call_path (AtRequest p v u) = p"
| "call_path (AtResponse p v u resp) = p"
| "call_path (Returned p v r) = p"

fun call_target :: "('h, 'v) call \<Rightarrow> 'v" where
  "call_target (AtParse p v) = v"
| "call_target (AtParseError p v err) = v"
| "call_target (AtRequest p v u) = v"
| "call_target (AtResponse p v u resp) = v"
| "call_target (Returned p v r) = v"

definition call_finish :: "('h, 'v) world \<Rightarrow> 'h XMLClient \<Rightarrow> ('h, 'v) call \<Rightarrow> ('h, 'v) call" where
  "call_finish W c t =
     snd (call_step W c (snd (call_step W c (snd (call_step W c t)))))"

text \<open>
  What every reachable state keeps: the client is the one the calls started on, and every
  call, run on from where it is, returns what \<open>Get\<close> returns for its arguments.
\<close>

definition pool_inv ::
  "('h, 'v) world \<Rightarrow> 'h XMLClient \<Rightarrow> 'h XMLClient \<times> ('h, 'v) call list \<Rightarrow> bool" where
  "pool_inv W c0 s = (fst s = c0 \<and>
     (\<forall>t \<in> set (snd s). call_finish W c0 t = Returned (call_path t) (call_target t)
                                               (Get W c0 (call_path t) (call_target t))))"

section \<open>Statistic groups\<close>

text \<open>
  \<open>type StatisticGroup string\<close>: a defined type over strings, and the three
  constants of the package.
\<close>

datatype StatisticGroup = StatisticGroup string

definition ServerStats :: StatisticGroup where
  "ServerStats = StatisticGroup ''server''"

definition ViewStats :: StatisticGroup where
  "ViewStats = StatisticGroup ''view''"

definition TaskStats :: StatisticGroup where
  "TaskStats = StatisticGroup ''tasks''"

text \<open>\<open>QryRTT\<close> is the common prefix of query round-trip histogram counters.\<close>

definition QryRTT :: string where
  "QryRTT = ''QryRTT''"




section \<open>The statistics model\<close>

type_synonym uint64 = "64 word"

text \<open>\<open>int64\<close>: the same 64 bits, read in two's complement by \<open>sint\<close>.\<close>

type_synonym int64 = "64 word"

text \<open>\<open>time.Time\<close>, by its two integer fields; the location pointer is left out.\<close>

record Time =
  wall :: uint64
  ext :: int64

record Counter =
  Name :: string
  Counter :: uint64

record ZoneCounter =
  Name :: string
  Serial :: string
  ZoneRcode :: "Counter list"
  ZoneQtype :: "Counter list"

record Gauge =
  Name :: string
  Gauge :: uint64

record Task =
  ID :: string
  Name :: string
  Quantum :: int64
  References :: uint64
  State :: string

record ThreadModel =
  Type :: string
  WorkerThreads :: uint64
  DefaultQuantum :: uint64
  TasksRunning :: uint64

record TaskManager =
  Tasks :: "Task list"
  ThreadModel :: ThreadModel

record Server =
  BootTime :: Time
  ConfigTime :: Time
  IncomingQueries :: "Counter list"
  IncomingRequests :: "Counter list"
  NameServerStats :: "Counter list"
  ZoneStatistics :: "Counter list"
  ServerRcodes :: "Counter list"

record View =
  Name :: string
  Cache :: "Gauge list"
  ResolverStats :: "Counter list"
  ResolverQueries :: "Counter list"

record ZoneView =
  Name :: string
  ZoneData :: "ZoneCounter list"

record Statistics =
  Server :: Server
  Views :: "View list"
  ZoneViews :: "ZoneView list"
  TaskManager :: TaskManager

subsection \<open>Zero values\<close>

definition Time_zero :: Time where
  "Time_zero = \<lparr>wall = 0, ext = 0\<rparr>"

definition Task_zero :: Task where
  "Task_zero = \<lparr>ID = [], Task.Name = [], Quantum = 0, References = 0, State = []\<rparr>"

definition ThreadModel_zero :: ThreadModel where
  "ThreadModel_zero = \<lparr>Type = [], WorkerThreads = 0, DefaultQuantum = 0, TasksRunning = 0\<rparr>"

definition TaskManager_zero :: TaskManager where
  "TaskManager_zero = \<lparr>Tasks = [], ThreadModel = ThreadModel_zero\<rparr>"

definition Server_zero :: Server where
  "Server_zero =
     \<lparr>BootTime = Time_zero, ConfigTime = Time_zero, IncomingQueries = [],
      IncomingRequests = [], NameServerStats = [], ZoneStatistics = [], ServerRcodes = []\<rparr>"

definition Statistics_zero :: Statistics where
  "Statistics_zero =
     \<lparr>Server = Server_zero, Views = [], ZoneViews = [], TaskManager = TaskManager_zero\<rparr>"

section \<open>Decoding XML into the model\<close>

text \<open>
  The decoding is done by the Go standard library (encoding/xml, which calls strconv and
  strings), directed by the field tags of the structs of bind.go. This section models
  that library for the tagged structs \<open>TaskManager\<close>, \<open>Task\<close> and \<open>ThreadModel\<close>,
  from the library's sources (encoding/xml/read.go, strconv/atoi.go, strings/strings.go).
\<close>

subsection \<open>strconv.ParseUint and strconv.ParseInt, base 10, 64 bits\<close>











subsection \<open>strings.TrimSpace\<close>






subsection \<open>encoding/xml: documents and the unmarshalling of struct fields\<close>












subsection \<open>Documents for the statements about decoding\<close>









section \<open>The statistics client\<close>

text \<open>
  bind.go declares the interface \<open>Client\<close> with the method
  \<open>Stats(...StatisticGroup) (Statistics, error)\<close> and has no implementation of it.
  What the specification leaves to an implementation is a parameter here: the path of
  each group, the default groups for a call without groups, the zero value of the raw
  structure a group is decoded into, and the projection of a decoded group into the
  aggregate.
\<close>

record 'raw group_config =
  group_path :: "StatisticGroup \<Rightarrow> string"
  default_groups :: "StatisticGroup list"
  raw_zero :: 'raw
  project :: "StatisticGroup \<Rightarrow> 'raw \<Rightarrow> Statistics \<Rightarrow> Statistics"

text \<open>
  Modelled from the spec: the method \<open>Stats\<close> of a \<open>Client\<close>, which the repository
  only declares. Section 4.3: for each requested group one \<open>Get\<close> against the group's
  path, decoding into a raw structure of its own, then the projection into the aggregate;
  sections 4.3 and 7: an error of \<open>Get\<close> is wrapped with the path that was fetched and
  returned at once, with no \<open>Statistics\<close> value (the zero value, in Go).
\<close>

fun Stats_groups ::
  "('h, 'raw) world \<Rightarrow> 'raw group_config \<Rightarrow> 'h XMLClient \<Rightarrow> StatisticGroup list \<Rightarrow> Statistics
     \<Rightarrow> Statistics \<times> error option" where
  "Stats_groups W G c [] s = (s, None)"
| "Stats_groups W G c (g # gs) s =
     (let r = Get W c (group_path G g) (raw_zero G)
      in case returned r of
           Some err \<Rightarrow>
             (Statistics_zero, Some (WrapError (group_path G g @ '': '' @ Error err) err))
         | None \<Rightarrow> Stats_groups W G c gs (project G g (target r) s))"

text \<open>
  Modelled from the spec: \<open>Stats\<close> itself. Section 4.3: zero groups means the
  default group set; the aggregate starts from the zero \<open>Statistics\<close>.
\<close>

definition Stats ::
  "('h, 'raw) world \<Rightarrow> 'raw group_config \<Rightarrow> 'h XMLClient \<Rightarrow> StatisticGroup list
     \<Rightarrow> Statistics \<times> error option" where
  "Stats W G c groups =
     Stats_groups W G c (if groups = [] then default_groups G else groups) Statistics_zero"

section \<open>A concrete world for the examples\<close>

text \<open>
  One base URL that parses, three paths under it that fail in the three ways a request
  can (no answer, status 404, a body that is not XML), and a decoder that stores the body
  text in its target.
\<close>

definition example_String :: "URL \<Rightarrow> string" where
  "example_String u =
     Scheme u @ ''://'' @ Host u @
     (if Path u \<noteq> [] \<and> hd (Path u) \<noteq> CHR ''/'' then ''/'' else []) @ Path u"

definition example_world :: "(unit, string) world" where
  "example_world =
     \<lparr>url_Parse = (\<lambda>s. if s = ''http://localhost:8053/bind''
                        then Inr \<lparr>Scheme = ''http'', Host = ''localhost:8053'', Path = ''/bind''\<rparr>
                        else Inl (WrapError ''parse: missing protocol scheme''
                                    (ErrorString ''missing protocol scheme''))),
      URL_String = example_String,
      Client_Get = (\<lambda>h u. if u = ''http://localhost:8053/bind/down''
                           then Inl (WrapError ''Get: connection refused'' (ErrorString ''connection refused''))
                           else if u = ''http://localhost:8053/bind/missing''
                           then Inr \<lparr>Status = ''404 Not Found'', StatusCode = 404, Body = ''gone''\<rparr>
                           else if u = ''http://localhost:8053/bind/garbled''
                           then Inr \<lparr>Status = ''200 OK'', StatusCode = 200, Body = ''<''\<rparr>
                           else Inr \<lparr>Status = ''200 OK'', StatusCode = 200, Body = ''<statistics/>''\<rparr>),
      Decoder_Decode = (\<lambda>b v. if b = ''<'' then (Some (ErrorString ''XML syntax error''), ''partial'')
                               else (None, b)),
      strconv_Quote = (\<lambda>s. [CHR 0x22] @ s @ [CHR 0x22])\<rparr>"

definition example_client :: "unit XMLClient" where
  "example_client = NewXMLClient ''http://localhost:8053/bind'' ()"

definition example_bad_client :: "unit XMLClient" where
  "example_bad_client = NewXMLClient '':bad'' ()"


text \<open>
  A group configuration for the example world: the view group lives under the path that
  answers 404, and the task group stores the decoded text as the state of one task.
\<close>

definition example_config :: "string group_config" where
  "example_config =
     \<lparr>group_path = (\<lambda>g. if g = ServerStats then ''xml/v3/server''
                         else if g = ViewStats then ''missing'' else ''xml/v3/tasks''),
      default_groups = [ServerStats, ViewStats, TaskStats],
      raw_zero = [],
      project = (\<lambda>g raw s. if g = TaskStats
                             then s\<lparr>TaskManager := \<lparr>Tasks = [Task_zero\<lparr>State := raw\<rparr>],
                                                   ThreadModel = ThreadModel_zero\<rparr>\<rparr>
                             else s)\<rparr>"



section \<open>Clean and Join leave no empty path element\<close>

lemma nds_Cons:
  "no_double_slash (x # ys) =
     ((ys = [] \<or> x \<noteq> CHR ''/'' \<or> hd ys \<noteq> CHR ''/'') \<and> no_double_slash ys)"
  by (cases ys) auto

lemma nds_append:
  "no_double_slash (xs @ ys) =
     (no_double_slash xs \<and> no_double_slash ys \<and>
      (xs = [] \<or> ys = [] \<or> last xs \<noteq> CHR ''/'' \<or> hd ys \<noteq> CHR ''/''))"
proof (induction xs)
  case Nil
  then show ?case by simp
next
  case (Cons x xs)
  then show ?case
    by (cases xs) (auto simp: nds_Cons simp del: no_double_slash.simps)
qed

lemma nds_take: "no_double_slash xs \<Longrightarrow> no_double_slash (take n xs)"
proof -
  assume a: "no_double_slash xs"
  have "xs = take n xs @ drop n xs" by simp
  then have "no_double_slash (take n xs @ drop n xs)" using a by simp
  then show ?thesis unfolding nds_append by blast
qed

lemma nds_no_slash: "CHR ''/'' \<notin> set xs \<Longrightarrow> no_double_slash xs"
  by (induction xs rule: no_double_slash.induct) auto

lemma nds_nth:
  "no_double_slash xs \<Longrightarrow> Suc i < length xs \<Longrightarrow> xs ! Suc i = CHR ''/'' \<Longrightarrow> xs ! i \<noteq> CHR ''/''"
proof (induction xs arbitrary: i rule: no_double_slash.induct)
  case (1 a b cs)
  then show ?case by (cases i) auto
qed auto

lemma scan_back_bounds:
  "dotdot \<le> w \<Longrightarrow> dotdot \<le> scan_back out dotdot w \<and> scan_back out dotdot w \<le> w"
  by (induction w) (auto simp: le_Suc_eq)

lemma scan_back_stop:
  "dotdot \<le> w \<Longrightarrow> scan_back out dotdot w = dotdot \<or> out ! scan_back out dotdot w = CHR ''/''"
  by (induction w) (auto simp: le_Suc_eq)

lemma clean_inv_backtrack:
  assumes inv: "clean_inv rooted out dotdot" and gt: "dotdot < length out"
  shows "clean_inv rooted (take (scan_back out dotdot (length out - 1)) out) dotdot"
proof -
  let ?w = "scan_back out dotdot (length out - 1)"
  from gt have le: "dotdot \<le> length out - 1" by simp
  have b: "dotdot \<le> ?w" "?w \<le> length out - 1" using scan_back_bounds [OF le] by auto
  have st: "?w = dotdot \<or> out ! ?w = CHR ''/''" using scan_back_stop [OF le] .
  have wlt: "?w < length out" using b gt by simp
  have nds: "no_double_slash (take ?w out)" using inv by (simp add: clean_inv_def nds_take)
  have len: "length (take ?w out) = ?w" using wlt by simp
  have lastw: "0 < ?w \<Longrightarrow> last (take ?w out) = out ! (?w - 1)"
  proof -
    assume "0 < ?w"
    then have "take ?w out \<noteq> []" using wlt by auto
    then show ?thesis using len wlt by (simp add: last_conv_nth del: length_take)
  qed
  have nosl: "dotdot < ?w \<Longrightarrow> out ! (?w - 1) \<noteq> CHR ''/''"
  proof -
    assume d: "dotdot < ?w"
    then have "out ! ?w = CHR ''/''" using st by simp
    moreover have "Suc (?w - 1) = ?w" using d by simp
    moreover have "no_double_slash out" using inv by (simp add: clean_inv_def)
    ultimately show ?thesis using nds_nth [of out "?w - 1"] wlt by simp
  qed
  show ?thesis
  proof (cases rooted)
    case True
    then have d1: "dotdot = 1" using inv by (simp add: clean_inv_def)
    have "?w = 1 \<or> last (take ?w out) \<noteq> CHR ''/''"
      using b(1) d1 lastw nosl by (cases "?w = 1") auto
    moreover have "take ?w out \<noteq> []" using b(1) d1 wlt by auto
    ultimately show ?thesis using True nds b d1 len by (simp add: clean_inv_def)
  next
    case False
    have dd: "dotdot = 0 \<or> out ! (dotdot - 1) \<noteq> CHR ''/''"
      using inv False by (simp add: clean_inv_def)
    have "?w = 0 \<or> last (take ?w out) \<noteq> CHR ''/''"
    proof (cases "dotdot < ?w")
      case True
      then show ?thesis using lastw nosl by simp
    next
      case False
      then have "?w = dotdot" using b(1) by simp
      then show ?thesis using dd lastw by auto
    qed
    moreover have "dotdot = 0 \<or> take ?w out ! (dotdot - 1) \<noteq> CHR ''/''"
      using dd b(1) by (cases "dotdot = 0") auto
    ultimately show ?thesis using False nds b len wlt by (auto simp: clean_inv_def)
  qed
qed

lemma clean_inv_dotdot:
  assumes inv: "clean_inv False out dotdot" and le: "\<not> dotdot < length out"
  shows "clean_inv False ((if length out > 0 then out @ ''/'' else out) @ ''..'')
           (length ((if length out > 0 then out @ ''/'' else out) @ ''..''))"
  using inv by (auto simp: clean_inv_def nds_append nth_append)

lemma clean_inv_elem:
  assumes inv: "clean_inv rooted out dotdot" and c: "c \<noteq> CHR ''/''"
  shows "clean_inv rooted
           ((if rooted \<and> length out \<noteq> 1 \<or> \<not> rooted \<and> length out \<noteq> 0 then out @ ''/'' else out)
              @ takeWhile (\<lambda>x. x \<noteq> CHR ''/'') (c # cs)) dotdot"
proof -
  let ?e = "takeWhile (\<lambda>x. x \<noteq> CHR ''/'') (c # cs)"
  have e1: "?e \<noteq> []" using c by simp
  have e2: "CHR ''/'' \<notin> set ?e" by (metis (mono_tags, lifting) set_takeWhileD)
  have e3: "no_double_slash ?e" using e2 by (rule nds_no_slash)
  have e4: "last ?e \<noteq> CHR ''/''" using e1 e2 last_in_set by metis
  have e5: "hd ?e \<noteq> CHR ''/''" using c by simp
  show ?thesis
  proof (cases rooted)
    case True
    then show ?thesis using inv e1 e3 e4 e5
      by (auto simp: clean_inv_def nds_append simp del: takeWhile.simps)
  next
    case False
    then show ?thesis using inv e1 e3 e4 e5
      by (auto simp: clean_inv_def nds_append nth_append simp del: takeWhile.simps)
  qed
qed

lemma clean_loop_nds:
  "clean_inv rooted out dotdot \<Longrightarrow> no_double_slash (clean_loop rooted rest out dotdot)"
proof (induction rooted rest out dotdot rule: clean_loop.induct)
  case (1 rooted out dotdot)
  then show ?case by (simp add: clean_inv_def)
next
  case (2 rooted c cs out dotdot)
  show ?case
  proof (cases "c = CHR ''/''")
    case True
    then show ?thesis using 2 by simp
  next
    case nsl: False
    show ?thesis
    proof (cases "c = CHR ''.'' \<and> elem_ends cs")
      case True
      then show ?thesis using 2 nsl by simp
    next
      case ndot: False
      show ?thesis
      proof (cases "c = CHR ''.'' \<and> hd cs = CHR ''.'' \<and> elem_ends (tl cs)")
        case True
        show ?thesis
        proof (cases "length out > dotdot")
          case gt: True
          have "clean_inv rooted (take (scan_back out dotdot (length out - 1)) out) dotdot"
            using clean_inv_backtrack [OF "2.prems"] gt by simp
          then show ?thesis using "2.IH"(3) nsl ndot True gt by simp
        next
          case ngt: False
          show ?thesis
          proof (cases rooted)
            case r: True
            then show ?thesis using "2.IH"(5) "2.prems" nsl ndot True ngt by simp
          next
            case nr: False
            have "clean_inv False ((if length out > 0 then out @ ''/'' else out) @ ''..'')
                     (length ((if length out > 0 then out @ ''/'' else out) @ ''..''))"
              using clean_inv_dotdot "2.prems" nr ngt by simp
            then show ?thesis using "2.IH"(4) nsl ndot True ngt nr by (simp add: Let_def)
          qed
        qed
      next
        case False
        have "clean_inv rooted
           ((if rooted \<and> length out \<noteq> 1 \<or> \<not> rooted \<and> length out \<noteq> 0 then out @ ''/'' else out)
              @ takeWhile (\<lambda>x. x \<noteq> CHR ''/'') (c # cs)) dotdot"
          using clean_inv_elem [OF "2.prems" nsl] .
        then show ?thesis using "2.IH"(6) [OF nsl ndot False refl]
          by (simp add: nsl ndot False Let_def del: takeWhile.simps dropWhile.simps)
      qed
    qed
  qed
qed

lemma Clean_nds: "no_double_slash (Clean path)"
proof (cases path)
  case Nil
  then show ?thesis by (simp add: Clean_def)
next
  case (Cons c cs)
  show ?thesis
  proof (cases "c = CHR ''/''")
    case True
    have "clean_inv True ''/'' 1" by (simp add: clean_inv_def)
    then have "no_double_slash (clean_loop True cs ''/'' 1)" by (rule clean_loop_nds)
    then show ?thesis using Cons True by (simp add: Clean_def Let_def)
  next
    case False
    have "clean_inv False [] 0" by (simp add: clean_inv_def)
    then have "no_double_slash (clean_loop False (c # cs) [] 0)" by (rule clean_loop_nds)
    then show ?thesis using Cons False by (simp add: Clean_def Let_def)
  qed
qed

lemma Join_nds: "no_double_slash (Join elem)"
  by (simp add: Join_def Clean_nds)

lemma nds_sublist: "no_double_slash s \<longleftrightarrow> \<not> sublist ''//'' s"
proof (induction s rule: no_double_slash.induct)
  case (1 a b cs)
  then show ?case by (auto simp: sublist_Cons_right)
qed (auto simp: sublist_Cons_right)

section \<open>Properties of Get\<close>

text \<open>
  Claim C4. Whenever a response is obtained whose status is not 200 OK, \<open>Get\<close> returns
  an error whose message carries the status text of the response (\<open>resp.Status\<close>, the code
  and its reason phrase), and the body is not decoded into the target: the target is left
  as it was, and the call does the same whatever the decoder is.
\<close>

theorem Get_unexpected_status:
  assumes "response_obtained W c p = Some resp" and "StatusCode resp \<noteq> StatusOK"
  shows "returned (Get W c p v) = Some (ErrorString (''unexpected status '' @ Status resp))
         \<and> target (Get W c p v) = v
         \<and> Get (W\<lparr>Decoder_Decode := d\<rparr>) c p v = Get W c p v"
  using assms
  by (auto simp: Get_def response_obtained_def Let_def fmt_Errorf_def Body_Close_def
           split: sum.splits)

text \<open>The path \<open>missing\<close> of the example world answers 404.\<close>

theorem Get_unexpected_status_witness:
  "response_obtained example_world example_client ''missing''
     = Some \<lparr>Status = ''404 Not Found'', StatusCode = 404, Body = ''gone''\<rparr>
   \<and> returned (Get example_world example_client ''missing'' ''old'')
     = Some (ErrorString ''unexpected status 404 Not Found'')
   \<and> target (Get example_world example_client ''missing'' ''old'') = ''old''
   \<and> Get (example_world\<lparr>Decoder_Decode := (\<lambda>b v. (None, b))\<rparr>) example_client ''missing'' ''old''
     = Get example_world example_client ''missing'' ''old''"
proof -
  have r: "response_obtained example_world example_client ''missing''
             = Some \<lparr>Status = ''404 Not Found'', StatusCode = 404, Body = ''gone''\<rparr>"
    by code_simp
  have s: "StatusCode \<lparr>Status = ''404 Not Found'', StatusCode = 404, Body = ''gone''\<rparr> \<noteq> StatusOK"
    by (simp add: StatusOK_def)
  show ?thesis
    using r Get_unexpected_status [OF r s, where d = "\<lambda>b v. (None, b)" and v = "''old''"] by simp
qed

text \<open>
  Claim C5. Once a response has been obtained, the body stream is closed when \<open>Get\<close>
  returns, on every exit path: status other than 200, decode failure and success.
\<close>

theorem Get_closes_body:
  assumes "response_obtained W c p = Some resp"
  shows "body (Get W c p v) = Some Closed"
  using assms
  by (auto simp: Get_def response_obtained_def Let_def Body_Close_def
           split: sum.splits prod.splits option.splits)

text \<open>The three exit paths, in the example world.\<close>

theorem Get_closes_body_witness:
  "body (Get example_world example_client ''missing'' ''old'') = Some Closed
   \<and> body (Get example_world example_client ''garbled'' ''old'') = Some Closed
   \<and> body (Get example_world example_client ''xml/v3/tasks'' ''old'') = Some Closed
   \<and> returned (Get example_world example_client ''missing'' ''old'')
       = Some (ErrorString ''unexpected status 404 Not Found'')
   \<and> returned (Get example_world example_client ''garbled'' ''old'')
       = Some (ErrorString ''failed to unmarshal XML response: XML syntax error'')
   \<and> returned (Get example_world example_client ''xml/v3/tasks'' ''old'') = None"
proof -
  have r1: "response_obtained example_world example_client ''missing''
             = Some \<lparr>Status = ''404 Not Found'', StatusCode = 404, Body = ''gone''\<rparr>"
    by code_simp
  have r2: "response_obtained example_world example_client ''garbled''
             = Some \<lparr>Status = ''200 OK'', StatusCode = 200, Body = ''<''\<rparr>"
    by code_simp
  have r3: "response_obtained example_world example_client ''xml/v3/tasks''
             = Some \<lparr>Status = ''200 OK'', StatusCode = 200, Body = ''<statistics/>''\<rparr>"
    by code_simp
  have e1: "returned (Get example_world example_client ''missing'' ''old'')
       = Some (ErrorString ''unexpected status 404 Not Found'')"
    by code_simp
  have e2: "returned (Get example_world example_client ''garbled'' ''old'')
       = Some (ErrorString ''failed to unmarshal XML response: XML syntax error'')"
    by code_simp
  have e3: "returned (Get example_world example_client ''xml/v3/tasks'' ''old'') = None"
    by code_simp
  show ?thesis
    using Get_closes_body [OF r1, of "''old''"] Get_closes_body [OF r2, of "''old''"]
      Get_closes_body [OF r3, of "''old''"] e1 e2 e3
    by simp
qed

text \<open>
  Claim C9. When \<open>Get\<close> fails before decoding (the base URL does not parse, the request
  fails, or the status is not 200), it returns an error and the target value is unchanged.
\<close>

theorem Get_early_error_keeps_target:
  assumes "fails_before_decoding W c p"
  shows "target (Get W c p v) = v \<and> returned (Get W c p v) \<noteq> None"
  using assms
  by (auto simp: Get_def fails_before_decoding_def Let_def Body_Close_def
           split: sum.splits)

text \<open>The three early failures, in the example world.\<close>

theorem Get_early_error_keeps_target_witness:
  "fails_before_decoding example_world example_bad_client ''xml/v3''
   \<and> fails_before_decoding example_world example_client ''down''
   \<and> fails_before_decoding example_world example_client ''missing''
   \<and> target (Get example_world example_bad_client ''xml/v3'' ''old'') = ''old''
   \<and> target (Get example_world example_client ''down'' ''old'') = ''old''
   \<and> target (Get example_world example_client ''missing'' ''old'') = ''old''"
proof -
  have f1: "fails_before_decoding example_world example_bad_client ''xml/v3''" by code_simp
  have f2: "fails_before_decoding example_world example_client ''down''" by code_simp
  have f3: "fails_before_decoding example_world example_client ''missing''" by code_simp
  show ?thesis
    using f1 f2 f3 Get_early_error_keeps_target [OF f1, of "''old''"]
      Get_early_error_keeps_target [OF f2, of "''old''"]
      Get_early_error_keeps_target [OF f3, of "''old''"]
    by simp
qed

subsection \<open>The receiver\<close>

lemma Get_receiver: "receiver (Get W c p v) = c"
  by (auto simp: Get_def Let_def Body_Close_def split: sum.splits prod.splits option.splits)

lemma Get_calls_receiver: "Get_calls W c calls = c"
  by (induction W c calls rule: Get_calls.induct) (simp_all add: Get_receiver)

subsection \<open>The receiver under overlapping calls\<close>

lemma call_step_client: "fst (call_step W c t) = c"
  by (cases t) auto

lemma call_finish_start: "call_finish W c (AtParse p v) = Returned p v (Get W c p v)"
  by (auto simp: call_finish_def Get_def Let_def split: sum.splits)

lemma call_finish_step: "call_finish W c (snd (call_step W c t)) = call_finish W c t"
  if "call_finish W c t = Returned p v r"
  using that by (cases t) (auto simp: call_finish_def split: sum.splits)

lemma call_step_args:
  "call_path (snd (call_step W c t)) = call_path t \<and> call_target (snd (call_step W c t)) = call_target t"
  by (cases t) (auto split: sum.splits)

lemma pool_inv_step:
  assumes "pool_step W s s'" and "pool_inv W c0 s"
  shows "pool_inv W c0 s'"
  using assms
proof (induction rule: pool_step.induct)
  case (start c ts p v)
  then show ?case by (auto simp: pool_inv_def call_finish_start)
next
  case (run i ts c c' t')
  have c: "c = c0" using run.prems by (simp add: pool_inv_def)
  have c': "c' = c" using run.hyps(2) call_step_client [of W c "ts ! i"] by simp
  have t': "t' = snd (call_step W c0 (ts ! i))" using run.hyps(2) c by simp
  have ti: "call_finish W c0 (ts ! i) = Returned (call_path (ts ! i)) (call_target (ts ! i))
              (Get W c0 (call_path (ts ! i)) (call_target (ts ! i)))"
    using run.prems run.hyps(1) by (simp add: pool_inv_def)
  have "call_finish W c0 t' = Returned (call_path t') (call_target t')
              (Get W c0 (call_path t') (call_target t'))"
    unfolding t' using call_finish_step [OF ti] ti call_step_args [of W c0 "ts ! i"] by simp
  then show ?case
    using run.prems c c' by (auto simp: pool_inv_def dest!: set_update_subset_insert [THEN subsetD])
qed

lemma pool_inv_steps:
  assumes "(pool_step W)\<^sup>*\<^sup>* s s'" and "pool_inv W c0 s"
  shows "pool_inv W c0 s'"
  using assms by (induction rule: rtranclp_induct) (auto intro: pool_inv_step)

lemma call_finish_Returned: "call_finish W c (Returned p v r) = Returned p v r"
  by (simp add: call_finish_def)

text \<open>
  Claim C10. \<open>Get\<close> never changes the receiver's \<open>url\<close> or \<open>http\<close> fields. On a
  client built by \<open>NewXMLClient\<close>, take any number of calls of \<open>Get\<close>, repeated or
  overlapping, their steps interleaved in any order: at every moment the client is the one
  that was built, with the same base URL and the same HTTP client, and every call that
  has returned has returned what \<open>Get\<close> returns on the client as built, so it has seen
  that base URL and that HTTP client, whatever the other calls did meanwhile.
\<close>

theorem XMLClient_unchanged:
  assumes "(pool_step W)\<^sup>*\<^sup>* (NewXMLClient u h, []) (c, ts)"
  shows "c = NewXMLClient u h \<and> url c = u \<and> http c = h
         \<and> (\<forall>p v r. Returned p v r \<in> set ts \<longrightarrow> r = Get W (NewXMLClient u h) p v)
         \<and> (\<forall>p v r. Returned p v r \<in> set ts \<longrightarrow> receiver r = NewXMLClient u h)"
proof -
  have "pool_inv W (NewXMLClient u h) (NewXMLClient u h, [])"
    by (simp add: pool_inv_def)
  then have inv: "pool_inv W (NewXMLClient u h) (c, ts)"
    using assms pool_inv_steps by blast
  then have c: "c = NewXMLClient u h" by (simp add: pool_inv_def)
  have r: "r = Get W (NewXMLClient u h) p v" if "Returned p v r \<in> set ts" for p v r
    using inv that by (force simp: pool_inv_def call_finish_Returned)
  have g: "receiver (Get W (NewXMLClient u h) p v) = NewXMLClient u h" for p v
    by (auto simp: Get_def Let_def Body_Close_def split: sum.splits prod.splits option.splits)
  have f: "url c = u \<and> http c = h"
    unfolding c by (simp add: NewXMLClient_def)
  have r': "receiver r = NewXMLClient u h" if "Returned p v r \<in> set ts" for p v r
    using r [OF that] g by simp
  show ?thesis using c f r r' by blast
qed

text \<open>
  Two calls that overlap, in the example world: both are started, then their steps
  alternate; one ends with status 404, the other succeeds.
\<close>

theorem XMLClient_unchanged_witness:
  "(pool_step example_world)\<^sup>*\<^sup>*
     (NewXMLClient ''http://localhost:8053/bind'' (), [])
     (example_client,
      [Returned ''missing'' ''a'' (Get example_world example_client ''missing'' ''a''),
       Returned ''xml/v3/tasks'' ''b'' (Get example_world example_client ''xml/v3/tasks'' ''b'')])
   \<and> url example_client = ''http://localhost:8053/bind''
   \<and> receiver (Get example_world example_client ''missing'' ''a'')
       = NewXMLClient ''http://localhost:8053/bind'' ()
   \<and> returned (Get example_world example_client ''xml/v3/tasks'' ''b'') = None"
proof -
  let ?W = "example_world"
  let ?c = "example_client"
  let ?ua = "\<lparr>Scheme = ''http'', Host = ''localhost:8053'', Path = ''/bind/missing''\<rparr>"
  let ?ub = "\<lparr>Scheme = ''http'', Host = ''localhost:8053'', Path = ''/bind/xml/v3/tasks''\<rparr>"
  let ?ra = "\<lparr>Status = ''404 Not Found'', StatusCode = 404, Body = ''gone''\<rparr>"
  let ?rb = "\<lparr>Status = ''200 OK'', StatusCode = 200, Body = ''<statistics/>''\<rparr>"
  let ?A = "Returned ''missing'' ''a'' (Get ?W ?c ''missing'' ''a'')"
  let ?B = "Returned ''xml/v3/tasks'' ''b'' (Get ?W ?c ''xml/v3/tasks'' ''b'')"
  have a1: "call_step ?W ?c (AtParse ''missing'' ''a'') = (?c, AtRequest ''missing'' ''a'' ?ua)"
    by code_simp
  have a2: "call_step ?W ?c (AtRequest ''missing'' ''a'' ?ua) = (?c, AtResponse ''missing'' ''a'' ?ua ?ra)"
    by code_simp
  have a3: "call_step ?W ?c (AtResponse ''missing'' ''a'' ?ua ?ra) = (?c, ?A)"
    by code_simp
  have b1: "call_step ?W ?c (AtParse ''xml/v3/tasks'' ''b'')
              = (?c, AtRequest ''xml/v3/tasks'' ''b'' ?ub)"
    by code_simp
  have b2: "call_step ?W ?c (AtRequest ''xml/v3/tasks'' ''b'' ?ub)
              = (?c, AtResponse ''xml/v3/tasks'' ''b'' ?ub ?rb)"
    by code_simp
  have b3: "call_step ?W ?c (AtResponse ''xml/v3/tasks'' ''b'' ?ub ?rb) = (?c, ?B)"
    by code_simp
  have s1: "pool_step ?W (?c, []) (?c, [AtParse ''missing'' ''a''])"
    using pool_step.start [of ?W ?c "[]" "''missing''" "''a''"] by simp
  have s2: "pool_step ?W (?c, [AtParse ''missing'' ''a'']) (?c, [AtParse ''missing'' ''a'', AtParse ''xml/v3/tasks'' ''b''])"
    using pool_step.start [of ?W ?c "[AtParse ''missing'' ''a'']" "''xml/v3/tasks''" "''b''"] by simp
  have s3: "pool_step ?W (?c, [AtParse ''missing'' ''a'', AtParse ''xml/v3/tasks'' ''b'']) (?c, [AtRequest ''missing'' ''a'' ?ua, AtParse ''xml/v3/tasks'' ''b''])"
    using pool_step.run [of 0 "[AtParse ''missing'' ''a'', AtParse ''xml/v3/tasks'' ''b'']" ?W ?c ?c "AtRequest ''missing'' ''a'' ?ua"] a1 by simp
  have s4: "pool_step ?W (?c, [AtRequest ''missing'' ''a'' ?ua, AtParse ''xml/v3/tasks'' ''b'']) (?c, [AtRequest ''missing'' ''a'' ?ua, AtRequest ''xml/v3/tasks'' ''b'' ?ub])"
    using pool_step.run [of 1 "[AtRequest ''missing'' ''a'' ?ua, AtParse ''xml/v3/tasks'' ''b'']" ?W ?c ?c "AtRequest ''xml/v3/tasks'' ''b'' ?ub"] b1 by simp
  have s5: "pool_step ?W (?c, [AtRequest ''missing'' ''a'' ?ua, AtRequest ''xml/v3/tasks'' ''b'' ?ub]) (?c, [AtRequest ''missing'' ''a'' ?ua, AtResponse ''xml/v3/tasks'' ''b'' ?ub ?rb])"
    using pool_step.run [of 1 "[AtRequest ''missing'' ''a'' ?ua, AtRequest ''xml/v3/tasks'' ''b'' ?ub]" ?W ?c ?c "AtResponse ''xml/v3/tasks'' ''b'' ?ub ?rb"] b2 by simp
  have s6: "pool_step ?W (?c, [AtRequest ''missing'' ''a'' ?ua, AtResponse ''xml/v3/tasks'' ''b'' ?ub ?rb]) (?c, [AtResponse ''missing'' ''a'' ?ua ?ra, AtResponse ''xml/v3/tasks'' ''b'' ?ub ?rb])"
    using pool_step.run [of 0 "[AtRequest ''missing'' ''a'' ?ua, AtResponse ''xml/v3/tasks'' ''b'' ?ub ?rb]" ?W ?c ?c "AtResponse ''missing'' ''a'' ?ua ?ra"] a2 by simp
  have s7: "pool_step ?W (?c, [AtResponse ''missing'' ''a'' ?ua ?ra, AtResponse ''xml/v3/tasks'' ''b'' ?ub ?rb]) (?c, [AtResponse ''missing'' ''a'' ?ua ?ra, ?B])"
    using pool_step.run [of 1 "[AtResponse ''missing'' ''a'' ?ua ?ra, AtResponse ''xml/v3/tasks'' ''b'' ?ub ?rb]" ?W ?c ?c "?B"] b3 by simp
  have s8: "pool_step ?W (?c, [AtResponse ''missing'' ''a'' ?ua ?ra, ?B]) (?c, [?A, ?B])"
    using pool_step.run [of 0 "[AtResponse ''missing'' ''a'' ?ua ?ra, ?B]" ?W ?c ?c "?A"] a3 by simp
  have r1: "(pool_step ?W)\<^sup>*\<^sup>* (?c, []) (?c, [AtParse ''missing'' ''a''])"
    using s1 by (rule r_into_rtranclp)
  have r2: "(pool_step ?W)\<^sup>*\<^sup>* (?c, []) (?c, [AtParse ''missing'' ''a'', AtParse ''xml/v3/tasks'' ''b''])"
    using r1 s2 by (rule rtranclp.rtrancl_into_rtrancl)
  have r3: "(pool_step ?W)\<^sup>*\<^sup>* (?c, []) (?c, [AtRequest ''missing'' ''a'' ?ua, AtParse ''xml/v3/tasks'' ''b''])"
    using r2 s3 by (rule rtranclp.rtrancl_into_rtrancl)
  have r4: "(pool_step ?W)\<^sup>*\<^sup>* (?c, []) (?c, [AtRequest ''missing'' ''a'' ?ua, AtRequest ''xml/v3/tasks'' ''b'' ?ub])"
    using r3 s4 by (rule rtranclp.rtrancl_into_rtrancl)
  have r5: "(pool_step ?W)\<^sup>*\<^sup>* (?c, []) (?c, [AtRequest ''missing'' ''a'' ?ua, AtResponse ''xml/v3/tasks'' ''b'' ?ub ?rb])"
    using r4 s5 by (rule rtranclp.rtrancl_into_rtrancl)
  have r6: "(pool_step ?W)\<^sup>*\<^sup>* (?c, []) (?c, [AtResponse ''missing'' ''a'' ?ua ?ra, AtResponse ''xml/v3/tasks'' ''b'' ?ub ?rb])"
    using r5 s6 by (rule rtranclp.rtrancl_into_rtrancl)
  have r7: "(pool_step ?W)\<^sup>*\<^sup>* (?c, []) (?c, [AtResponse ''missing'' ''a'' ?ua ?ra, ?B])"
    using r6 s7 by (rule rtranclp.rtrancl_into_rtrancl)
  have r8: "(pool_step ?W)\<^sup>*\<^sup>* (?c, []) (?c, [?A, ?B])"
    using r7 s8 by (rule rtranclp.rtrancl_into_rtrancl)
  from r8
  have reach: "(pool_step ?W)\<^sup>*\<^sup>*
                      (NewXMLClient ''http://localhost:8053/bind'' (), []) (?c, [?A, ?B])"
    unfolding example_client_def .
  have ok: "returned (Get ?W ?c ''xml/v3/tasks'' ''b'') = None"
    by code_simp
  have u: "url ?c = ''http://localhost:8053/bind''"
    using XMLClient_unchanged [OF reach] by blast
  have "?A \<in> set [?A, ?B]" by simp
  then have r: "receiver (Get ?W ?c ''missing'' ''a'') = NewXMLClient ''http://localhost:8053/bind'' ()"
    using XMLClient_unchanged [OF reach] by blast
  show ?thesis
    using reach ok u r by blast
qed

subsection \<open>The request path\<close>

text \<open>
  Claim C3, as amended. When the base URL parses, the request is issued for the base URL
  with its path replaced by \<open>path.Join\<close> of the base path and \<open>p\<close>. That path has no
  two slashes in a row, whatever \<open>p\<close> is. The join resolves \<open>..\<close> elements of \<open>p\<close>
  against the base path and nothing keeps the result under it: the base path \<open>/bind\<close>
  joined with \<open>../admin\<close> is \<open>/admin\<close>.
\<close>

theorem Get_request_path:
  assumes "url_Parse W (url c) = Inr u0"
  shows "requested (Get W c p v) = Some (u0\<lparr>Path := Join [Path u0, p]\<rparr>)
         \<and> no_double_slash (Join [Path u0, p])
         \<and> \<not> sublist ''//'' (Join [Path u0, p])
         \<and> Join [''/bind'', ''../admin''] = ''/admin''"
proof -
  have "requested (Get W c p v) = Some (u0\<lparr>Path := Join [Path u0, p]\<rparr>)"
    using assms
    by (auto simp: Get_def Let_def Body_Close_def split: sum.splits prod.splits option.splits)
  moreover have "no_double_slash (Join [Path u0, p])"
    by (rule Join_nds)
  moreover have "Join [''/bind'', ''../admin''] = ''/admin''"
    by code_simp
  ultimately show ?thesis
    using nds_sublist by blast
qed

text \<open>A path with doubled slashes and dot elements, in the example world.\<close>

theorem Get_request_path_witness:
  "url_Parse example_world (url example_client)
     = Inr \<lparr>Scheme = ''http'', Host = ''localhost:8053'', Path = ''/bind''\<rparr>
   \<and> requested (Get example_world example_client ''//xml/.//v3//server/'' ''old'')
     = Some \<lparr>Scheme = ''http'', Host = ''localhost:8053'', Path = ''/bind/xml/v3/server''\<rparr>
   \<and> no_double_slash ''/bind/xml/v3/server''"
proof -
  have u: "url_Parse example_world (url example_client)
             = Inr \<lparr>Scheme = ''http'', Host = ''localhost:8053'', Path = ''/bind''\<rparr>"
    by code_simp
  have j: "Join [''/bind'', ''//xml/.//v3//server/''] = ''/bind/xml/v3/server''"
    by code_simp
  show ?thesis
    using u j Get_request_path [OF u, of "''//xml/.//v3//server/''" "''old''"] by simp
qed

text \<open>
  The claim as stated fails: with the base path \<open>/bind\<close> and \<open>p = ../admin\<close> the
  request goes to \<open>/admin\<close>, which is not under \<open>/bind\<close>.
\<close>

theorem Get_path_traversal_counterexample:
  "url_Parse example_world (url example_client)
     = Inr \<lparr>Scheme = ''http'', Host = ''localhost:8053'', Path = ''/bind''\<rparr>
   \<and> requested (Get example_world example_client ''../admin'' ''old'')
     = Some \<lparr>Scheme = ''http'', Host = ''localhost:8053'', Path = ''/admin''\<rparr>
   \<and> \<not> prefix ''/bind'' ''/admin''"
  by code_simp

subsection \<open>The errors of Get\<close>

text \<open>
  Claim C2, as amended. Each failure condition of \<open>Get\<close> gives an error built by
  \<open>fmt.Errorf\<close> with its own message: \<open>invalid URL\<close> with the quoted base URL for a
  base URL that does not parse, \<open>error querying stats\<close> for a failed request,
  \<open>unexpected status\<close> for a status other than 200 and
  \<open>failed to unmarshal XML response\<close> for a decode failure. The message ends with the
  text of the cause (or the status of the response). The four messages differ from each
  other whatever the causes are. No error that \<open>Get\<close> returns wraps its cause. \<open>Get\<close>
  returns a state on every input.
\<close>

theorem Get_failure_errors:
  "(url_Parse W (url c) = Inl e \<longrightarrow>
      returned (Get W c p v)
        = Some (ErrorString (''invalid URL '' @ strconv_Quote W (url c) @ '': '' @ Error e)))
   \<and> (url_Parse W (url c) = Inr u0
        \<and> Client_Get W (http c) (URL_String W (u0\<lparr>Path := Join [Path u0, p]\<rparr>)) = Inl e \<longrightarrow>
      returned (Get W c p v) = Some (ErrorString (''error querying stats: '' @ Error e)))
   \<and> (response_obtained W c p = Some resp \<and> StatusCode resp \<noteq> StatusOK \<longrightarrow>
      returned (Get W c p v) = Some (ErrorString (''unexpected status '' @ Status resp)))
   \<and> (response_obtained W c p = Some resp \<and> StatusCode resp = StatusOK
        \<and> fst (Decoder_Decode W (Body resp) v) = Some e \<longrightarrow>
      returned (Get W c p v)
        = Some (ErrorString (''failed to unmarshal XML response: '' @ Error e)))
   \<and> distinct [''invalid URL '' @ q @ '': '' @ m1, ''error querying stats: '' @ m2,
               ''unexpected status '' @ m3, ''failed to unmarshal XML response: '' @ m4]
   \<and> (\<forall>err. returned (Get W c p v) = Some err \<longrightarrow> Unwrap err = None)"
  by (auto simp: Get_def response_obtained_def Let_def fmt_Errorf_def Body_Close_def
           split: sum.splits prod.splits option.splits)

text \<open>The four failures, in the example world.\<close>

theorem Get_failure_errors_witness:
  "returned (Get example_world example_bad_client ''xml/v3'' ''old'')
     = Some (ErrorString (''invalid URL '' @ [CHR 0x22] @ '':bad'' @ [CHR 0x22]
                            @ '': parse: missing protocol scheme''))
   \<and> returned (Get example_world example_client ''down'' ''old'')
     = Some (ErrorString ''error querying stats: Get: connection refused'')
   \<and> returned (Get example_world example_client ''missing'' ''old'')
     = Some (ErrorString ''unexpected status 404 Not Found'')
   \<and> returned (Get example_world example_client ''garbled'' ''old'')
     = Some (ErrorString ''failed to unmarshal XML response: XML syntax error'')"
proof -
  have p1: "url_Parse example_world (url example_bad_client)
              = Inl (WrapError ''parse: missing protocol scheme''
                       (ErrorString ''missing protocol scheme''))"
    by code_simp
  have q1: "strconv_Quote example_world (url example_bad_client)
              = [CHR 0x22] @ '':bad'' @ [CHR 0x22]"
    by code_simp
  have p2: "url_Parse example_world (url example_client)
              = Inr \<lparr>Scheme = ''http'', Host = ''localhost:8053'', Path = ''/bind''\<rparr>
            \<and> Client_Get example_world (http example_client)
                 (URL_String example_world
                    (\<lparr>Scheme = ''http'', Host = ''localhost:8053'', Path = ''/bind''\<rparr>
                       \<lparr>Path := Join [Path \<lparr>Scheme = ''http'', Host = ''localhost:8053'',
                                               Path = ''/bind''\<rparr>, ''down'']\<rparr>))
              = Inl (WrapError ''Get: connection refused'' (ErrorString ''connection refused''))"
    by code_simp
  have p3: "response_obtained example_world example_client ''missing''
              = Some \<lparr>Status = ''404 Not Found'', StatusCode = 404, Body = ''gone''\<rparr>
            \<and> StatusCode \<lparr>Status = ''404 Not Found'', StatusCode = 404, Body = ''gone''\<rparr>
                \<noteq> StatusOK"
    by code_simp
  have p4: "response_obtained example_world example_client ''garbled''
              = Some \<lparr>Status = ''200 OK'', StatusCode = 200, Body = ''<''\<rparr>
            \<and> StatusCode \<lparr>Status = ''200 OK'', StatusCode = 200, Body = ''<''\<rparr> = StatusOK
            \<and> fst (Decoder_Decode example_world
                      (Body \<lparr>Status = ''200 OK'', StatusCode = 200, Body = ''<''\<rparr>) ''old'')
                = Some (ErrorString ''XML syntax error'')"
    by code_simp
  have r1: "returned (Get example_world example_bad_client ''xml/v3'' ''old'')
     = Some (ErrorString (''invalid URL '' @ [CHR 0x22] @ '':bad'' @ [CHR 0x22]
                            @ '': parse: missing protocol scheme''))"
    using p1 q1
      Get_failure_errors [of example_world example_bad_client
        "WrapError ''parse: missing protocol scheme'' (ErrorString ''missing protocol scheme'')"
        "''xml/v3''" "''old''"]
    by simp
  have r2: "returned (Get example_world example_client ''down'' ''old'')
     = Some (ErrorString ''error querying stats: Get: connection refused'')"
    using p2
      Get_failure_errors [of example_world example_client
        "WrapError ''Get: connection refused'' (ErrorString ''connection refused'')"
        "''down''" "''old''"
        "\<lparr>Scheme = ''http'', Host = ''localhost:8053'', Path = ''/bind''\<rparr>"]
    by simp
  have r3: "returned (Get example_world example_client ''missing'' ''old'')
     = Some (ErrorString ''unexpected status 404 Not Found'')"
    using p3
      Get_failure_errors [where W = example_world and c = example_client and p = "''missing''"
        and v = "''old''"
        and resp = "\<lparr>Status = ''404 Not Found'', StatusCode = 404, Body = ''gone''\<rparr>"]
    by simp
  have r4: "returned (Get example_world example_client ''garbled'' ''old'')
     = Some (ErrorString ''failed to unmarshal XML response: XML syntax error'')"
    using p4
      Get_failure_errors [where W = example_world and c = example_client and p = "''garbled''"
        and v = "''old''" and e = "ErrorString ''XML syntax error''"
        and resp = "\<lparr>Status = ''200 OK'', StatusCode = 200, Body = ''<''\<rparr>"]
    by simp
  show ?thesis using r1 r2 r3 r4 by simp
qed

text \<open>
  The claim as stated fails: the error returned for a failed request is a plain message.
  It does not wrap the cause the HTTP client reported, and it is no named error value.
\<close>

theorem Get_transport_error_counterexample:
  "Client_Get example_world (http example_client) ''http://localhost:8053/bind/down''
     = Inl (WrapError ''Get: connection refused'' (ErrorString ''connection refused''))
   \<and> returned (Get example_world example_client ''down'' ''old'')
     = Some (ErrorString ''error querying stats: Get: connection refused'')
   \<and> Unwrap (ErrorString ''error querying stats: Get: connection refused'') = None"
  by code_simp

section \<open>The statistic groups\<close>


section \<open>Numbers in documents\<close>

subsection \<open>ParseUint reads back a decimal numeral\<close>











subsection \<open>TrimSpace leaves a numeral as it is\<close>




















section \<open>Decoding a task manager document\<close>

subsection \<open>The fields of a task\<close>














subsection \<open>Omitted elements\<close>














section \<open>Stats fails as a whole\<close>

lemma Stats_groups_fail:
  "g \<in> set gs \<Longrightarrow> returned (Get W c (group_path G g) (raw_zero G)) \<noteq> None \<Longrightarrow>
   fst (Stats_groups W G c gs s) = Statistics_zero \<and> snd (Stats_groups W G c gs s) \<noteq> None"
proof (induction gs arbitrary: s)
  case Nil
  then show ?case by simp
next
  case (Cons a gs)
  show ?case
  proof (cases "returned (Get W c (group_path G a) (raw_zero G))")
    case None
    then have "g \<noteq> a" using Cons.prems(2) by auto
    then have "g \<in> set gs" using Cons.prems(1) by simp
    then show ?thesis using Cons.IH Cons.prems(2) None by (simp add: Let_def)
  next
    case (Some err)
    then show ?thesis by (simp add: Let_def)
  qed
qed

text \<open>
  Claim C1. \<open>Stats\<close> fails atomically: if the fetch of any one of the groups of a call
  (the groups requested, or the default groups when none is requested) returns an error,
  then \<open>Stats\<close> returns an error and the zero \<open>Statistics\<close>, whatever the other groups
  gave.
\<close>

theorem Stats_fails_atomically:
  assumes "g \<in> set (if groups = [] then default_groups G else groups)"
    and "returned (Get W c (group_path G g) (raw_zero G)) \<noteq> None"
  shows "fst (Stats W G c groups) = Statistics_zero \<and> snd (Stats W G c groups) \<noteq> None"
  unfolding Stats_def using assms by (rule Stats_groups_fail)

text \<open>
  In the example world the task group is fetched first and succeeds, then the view group
  fails: nothing of the task group is returned.
\<close>

theorem Stats_fails_atomically_witness:
  "fst (Stats example_world example_config example_client [TaskStats])
     = Statistics_zero\<lparr>TaskManager := \<lparr>Tasks = [Task_zero\<lparr>State := ''<statistics/>''\<rparr>],
                                       ThreadModel = ThreadModel_zero\<rparr>\<rparr>
   \<and> snd (Stats example_world example_config example_client [TaskStats]) = None
   \<and> returned (Get example_world example_client ''missing'' []) \<noteq> None
   \<and> fst (Stats example_world example_config example_client [TaskStats, ViewStats]) = Statistics_zero
   \<and> snd (Stats example_world example_config example_client [TaskStats, ViewStats]) \<noteq> None"
proof -
  have m: "ViewStats \<in> set (if [TaskStats, ViewStats] = [] then default_groups example_config
                              else [TaskStats, ViewStats])"
    by simp
  have p: "group_path example_config ViewStats = ''missing''"
    by code_simp
  have z: "raw_zero example_config = []"
    by code_simp
  have f: "returned (Get example_world example_client ''missing'' []) \<noteq> None"
    by code_simp
  have f': "returned (Get example_world example_client (group_path example_config ViewStats)
                        (raw_zero example_config)) \<noteq> None"
    unfolding p z by (rule f)
  have ok: "Stats example_world example_config example_client [TaskStats]
     = (Statistics_zero\<lparr>TaskManager := \<lparr>Tasks = [Task_zero\<lparr>State := ''<statistics/>''\<rparr>],
                                       ThreadModel = ThreadModel_zero\<rparr>\<rparr>, None)"
    by code_simp
  show ?thesis
    using Stats_fails_atomically [OF m f'] f ok by simp
qed

end
